theory Spec2Isabelle
  imports Complex_Main "HOL-Library.Char_ord" "HOL-Library.List_Lexorder"
begin

section \<open>The scheduler of \<open>main\<close>\<close>

text \<open>
  A \<open>time.Time\<close> is an instant; the model keeps it as the number of nanoseconds since
  Go's zero time (January 1, year 1, 00:00:00 UTC), and a \<open>time.Duration\<close> as a number
  of nanoseconds. The monotonic clock reading and the 64-bit range of a duration play no
  part in the computation of the next run and are left out.
\<close>

type_synonym Time = int
type_synonym Duration = int

definition Second :: Duration where
  "Second = 1000000000"

definition Hour :: Duration where
  "Hour = 3600 * Second"

text \<open>The constants of the source (\<open>const ( day = 24 * time.Hour ... )\<close>).\<close>

definition day :: Duration where
  "day = 24 * Hour"

definition repeatInterval :: Duration where
  "repeatInterval = Hour"

definition requestDelay :: Duration where
  "requestDelay = 4 * Second"

definition startTime :: Duration where
  "startTime = 5 * Hour"

definition endTime :: Duration where
  "endTime = 24 * Hour"

text \<open>The methods of \<open>time.Time\<close> that \<open>main\<close> calls.\<close>

definition Add :: "Time \<Rightarrow> Duration \<Rightarrow> Time" where
  "Add t d = t + d"

definition Before :: "Time \<Rightarrow> Time \<Rightarrow> bool" where
  "Before t u = (t < u)"

definition After :: "Time \<Rightarrow> Time \<Rightarrow> bool" where
  "After t u = (u < t)"

text \<open>
  \<open>t.Truncate(d)\<close> rounds \<open>t\<close> down to a multiple of \<open>d\<close> since the zero time, and
  returns \<open>t\<close> unchanged when \<open>d <= 0\<close>. It works on the absolute instant, not on the
  wall clock of a location.
\<close>

definition Truncate :: "Time \<Rightarrow> Duration \<Rightarrow> Time" where
  "Truncate t d = (if d \<le> 0 then t else t - t mod d)"

text \<open>
  The body of the loop of \<open>main\<close> that computes \<open>nextRun\<close>, lines 130 to 136.
  \<open>today\<close> is the value of
  \<open>time.Date(now.Year(), now.Month(), now.Day(), 0, 0, 0, 0, time.Local)\<close>,
  which the time library computes from the zone of the machine; it is a parameter here.
\<close>

definition nextRun :: "Time \<Rightarrow> Time \<Rightarrow> Time" where
  "nextRun today now =
     (if Before now (Add today startTime) then Add today startTime
      else if After now (Add today endTime) then Add today day
      else Add (Truncate now repeatInterval) repeatInterval)"

text \<open>
  The local zone as a fixed offset, in seconds east of UTC, the form in which
  \<open>checkLocalTimezone\<close> reads it (\<open>tzOffset\<close>; the program expects \<open>8 * 3600\<close>).
  In such a zone the wall clock is the instant shifted by the offset:
  \<open>clock\<close> is the time of day, \<open>dayNo\<close> counts the local calendar days, and
  \<open>midnight\<close> is the instant at which the local day of \<open>now\<close> began, that is the
  \<open>today\<close> of \<open>main\<close>.
\<close>

definition clock :: "int \<Rightarrow> Time \<Rightarrow> Duration" where
  "clock tzOffset t = (t + tzOffset * Second) mod day"

definition dayNo :: "int \<Rightarrow> Time \<Rightarrow> int" where
  "dayNo tzOffset t = (t + tzOffset * Second) div day"

definition midnight :: "int \<Rightarrow> Time \<Rightarrow> Time" where
  "midnight tzOffset now = now - clock tzOffset now"

definition scheduler :: "int \<Rightarrow> Time \<Rightarrow> Time" where
  "scheduler tzOffset now = nextRun (midnight tzOffset now) now"

section \<open>Errors, panics and the exit of the process\<close>

text \<open>
  A Go \<open>error\<close> value is kept as the text that \<open>err.Error()\<close> returns; a \<open>nil\<close> error
  is \<open>None\<close> of \<open>error option\<close>.

  The program ends in two ways besides running on. A run-time panic is recovered
  nowhere in the source, so it ends the process. \<open>log.Fatal().Msg(m)\<close> of zerolog
  writes \<open>m\<close> to the log and then calls \<open>os.Exit(1)\<close>: \<open>Exit 1 m\<close>.
\<close>

datatype error = Error string

datatype stop = Panic string | Exit int string

text \<open>\<open>checkFatal\<close>, lines 182 to 186.\<close>

definition checkFatal :: "error option \<Rightarrow> stop + unit" where
  "checkFatal err =
     (case err of
        None \<Rightarrow> Inr ()
      | Some (Error msg) \<Rightarrow> Inl (Exit 1 msg))"

section \<open>Provider responses and the two resolvers\<close>

text \<open>
  The values that \<open>encoding/json\<close> stores in an \<open>interface{}\<close>. A \<open>JsonObject\<close> is a
  \<open>map[string]interface{}\<close>; reading a key that is absent gives the \<open>nil\<close> interface,
  as reading a key whose value is the JSON \<open>null\<close> does. Reading a \<open>nil\<close> map behaves as
  reading the empty map.
\<close>

datatype json =
    JNull
  | JBool bool
  | JNumber real
  | JString string
  | JArray "json list"
  | JObject "string \<Rightarrow> json option"

type_synonym JsonObject = "string \<Rightarrow> json option"

text \<open>
  The type assertion \<open>v.(string)\<close> in its one-result form: it yields the string when the
  dynamic type of \<open>v\<close> is \<open>string\<close> and panics otherwise, with the message of the Go
  run time.
\<close>

fun dynamicType :: "json option \<Rightarrow> string" where
  "dynamicType None = ''nil''"
| "dynamicType (Some JNull) = ''nil''"
| "dynamicType (Some (JBool b)) = ''bool''"
| "dynamicType (Some (JNumber x)) = ''float64''"
| "dynamicType (Some (JString s)) = ''string''"
| "dynamicType (Some (JArray xs)) = ''[]interface {}''"
| "dynamicType (Some (JObject m)) = ''map[string]interface {}''"

fun assertString :: "json option \<Rightarrow> stop + string" where
  "assertString (Some (JString s)) = Inr s"
| "assertString v =
     Inl (Panic (''interface conversion: interface {} is '' @ dynamicType v @ '', not string''))"

text \<open>
  \<open>Info\<close> is the HTTP client of a provider: its result \<open>(info, err)\<close> depends on the
  network and on the provider, so the model takes the function from scan codes to
  results as given. \<open>TrainNo\<close> returns \<open>(trainNo, date, err)\<close> or panics.
\<close>

type_synonym InfoResult = "JsonObject \<times> error option"
type_synonym TrainNoResult = "stop + (string \<times> string \<times> error option)"

text \<open>
  A \<open>Bureau\<close> of the source. The field \<open>Name\<close> is used in two log messages only and
  \<open>Scan\<close> is never set or called; both are left out. \<open>TrainNo\<close> receives \<open>this\<close> in the
  source and reads only \<open>this.Info\<close> from it: here it receives that function. Its second
  argument is the value of \<open>time.Now().Format("2006-01-02")\<close> at the call.
\<close>

record Bureau =
  Code :: string
  TrainNo :: "(string \<Rightarrow> InfoResult) \<Rightarrow> string \<Rightarrow> string \<Rightarrow> TrainNoResult"
  Info :: "string \<Rightarrow> InfoResult"

text \<open>\<open>TrainNo\<close> of bureau H, lines 37 to 45. The results are named, so they are the
  empty strings where the function does not assign them.\<close>

definition TrainNo_H :: "(string \<Rightarrow> InfoResult) \<Rightarrow> string \<Rightarrow> string \<Rightarrow> TrainNoResult" where
  "TrainNo_H thisInfo today pqCode =
     (case thisInfo pqCode of
        (info, Some err) \<Rightarrow> Inr ('''', '''', Some err)
      | (info, None) \<Rightarrow>
          (case assertString (info ''trainName'') of
             Inl p \<Rightarrow> Inl p
           | Inr trainNo \<Rightarrow> Inr (trainNo, today, None)))"

text \<open>\<open>TrainNo\<close> of bureau P, lines 68 to 76.\<close>

definition TrainNo_P :: "(string \<Rightarrow> InfoResult) \<Rightarrow> string \<Rightarrow> string \<Rightarrow> TrainNoResult" where
  "TrainNo_P thisInfo today qrCode =
     (case thisInfo qrCode of
        (info, Some err) \<Rightarrow> Inr ('''', '''', Some err)
      | (info, None) \<Rightarrow>
          (case assertString (info ''TrainnoId'') of
             Inl p \<Rightarrow> Inl p
           | Inr trainNo \<Rightarrow>
               (case assertString (info ''TrainnoDate'') of
                  Inl p \<Rightarrow> Inl p
                | Inr date \<Rightarrow> Inr (trainNo, date, None))))"

text \<open>The table \<open>bureaus\<close>, over the behaviour of the two providers.\<close>

definition bureaus :: "(string \<Rightarrow> InfoResult) \<Rightarrow> (string \<Rightarrow> InfoResult) \<Rightarrow> Bureau list" where
  "bureaus infoH infoP =
     [\<lparr>Code = ''H'', TrainNo = TrainNo_H, Info = infoH\<rparr>,
      \<lparr>Code = ''P'', TrainNo = TrainNo_P, Info = infoP\<rparr>]"

section \<open>Storage\<close>

text \<open>
  The two tables of \<open>checkDatabase\<close>. A table is the list of its rows in the order of
  insertion; a \<open>LogRecord\<close> is a row of \<open>emu_log\<close>, its fields named after the columns. \<open>emu_log\<close> has the columns \<open>(date, emu_no, train_no)\<close> and is
  \<open>UNIQUE(date, emu_no, train_no)\<close>; \<open>emu_qrcode\<close> has the columns
  \<open>(emu_no, emu_bureau, emu_qrcode)\<close> and the \<open>rowid\<close> that SQLite gives every row.
\<close>

record LogRecord =
  log_date :: string
  log_emu_no :: string
  log_train_no :: string

record QrCode =
  rowid :: int
  emu_no :: string
  emu_bureau :: string
  emu_qrcode :: string

text \<open>
  \<open>INSERT OR IGNORE INTO emu_log VALUES (?, ?, ?)\<close>: the row is added unless it
  would break the \<open>UNIQUE\<close> constraint, in which case the statement does nothing and
  succeeds. The three values are Go strings, so no \<open>NOT NULL\<close> constraint can fail.
\<close>

definition insertOrIgnore :: "LogRecord \<Rightarrow> LogRecord list \<Rightarrow> LogRecord list" where
  "insertOrIgnore r tbl = (if r \<in> set tbl then tbl else tbl @ [r])"

text \<open>
  The query of \<open>iterVehicles\<close>, lines 155 to 161:
  \<^verbatim>\<open>SELECT emu_no, emu_qrcode, MIN(rowid) FROM emu_qrcode
  WHERE emu_bureau = ? GROUP BY emu_no ORDER BY emu_no ASC;\<close>
  One result row per \<open>emu_no\<close> among the rows of the bureau. With a single \<open>MIN\<close>
  aggregate SQLite takes the bare column \<open>emu_qrcode\<close> from the row that holds the
  minimum. Text is ordered by its bytes (the \<open>BINARY\<close> collation), which is the
  lexicographic order of \<open>string\<close> here.
\<close>

fun minRow :: "QrCode \<Rightarrow> QrCode list \<Rightarrow> QrCode" where
  "minRow r [] = r"
| "minRow r (x # xs) = minRow (if rowid x < rowid r then x else r) xs"

definition selectVehicles :: "string \<Rightarrow> QrCode list \<Rightarrow> (string \<times> string \<times> int) list" where
  "selectVehicles code tbl =
     (let rows = filter (\<lambda>r. emu_bureau r = code) tbl in
      concat (map
        (\<lambda>e. case filter (\<lambda>r. emu_no r = e) rows of
                [] \<Rightarrow> []
              | r # rs \<Rightarrow> [(e, emu_qrcode (minRow r rs), rowid (minRow r rs))])
        (sort (remdups (map emu_no rows)))))"

text \<open>
  The storage operations of the program. Whether one of them fails is decided outside
  the program (the file system, the SQLite library): \<open>fault\<close> of the \<open>World\<close> gives the
  error an operation returns, if any. Within one batch every vehicle has one row, so
  the operations on a row are named by the code of the bureau and the vehicle.
  \<open>clockDate\<close> is the local date that \<open>time.Now()\<close> shows when a scan code is resolved.
\<close>

datatype storage_op =
    Open
  | CreateTable string
  | CountRecords string
  | Query string
  | Next string string
  | Scan string string
  | Exec string LogRecord

record World =
  fault :: "storage_op \<Rightarrow> error option"
  clockDate :: "string \<Rightarrow> string"

text \<open>
  \<open>checkDatabase\<close>, lines 208 to 237, on the tables the file holds when the program
  starts (\<open>None\<close>: the table does not exist yet). \<open>CREATE TABLE IF NOT EXISTS\<close> makes an
  empty table where there is none; \<open>countRecords\<close> only reads.
\<close>

record DB =
  emu_log_table :: "LogRecord list"
  emu_qrcode_table :: "QrCode list"

definition createTableIfNotExists :: "'a list option \<Rightarrow> 'a list" where
  "createTableIfNotExists t = (case t of None \<Rightarrow> [] | Some rows \<Rightarrow> rows)"

definition countRecords :: "World \<Rightarrow> string \<Rightarrow> 'a list \<Rightarrow> stop + int" where
  "countRecords w tableName tbl =
     (case checkFatal (fault w (CountRecords tableName)) of
        Inl x \<Rightarrow> Inl x
      | Inr _ \<Rightarrow> Inr (int (length tbl)))"

definition checkDatabase ::
  "World \<Rightarrow> LogRecord list option \<Rightarrow> QrCode list option \<Rightarrow> stop + DB" where
  "checkDatabase w logFile qrFile =
     (case checkFatal (fault w Open) of
        Inl x \<Rightarrow> Inl x
      | Inr _ \<Rightarrow>
     (case checkFatal (fault w (CreateTable ''emu_log'')) of
        Inl x \<Rightarrow> Inl x
      | Inr _ \<Rightarrow>
     (case countRecords w ''emu_log'' (createTableIfNotExists logFile) of
        Inl x \<Rightarrow> Inl x
      | Inr _ \<Rightarrow>
     (case checkFatal (fault w (CreateTable ''emu_qrcode'')) of
        Inl x \<Rightarrow> Inl x
      | Inr _ \<Rightarrow>
     (case countRecords w ''emu_qrcode'' (createTableIfNotExists qrFile) of
        Inl x \<Rightarrow> Inl x
      | Inr _ \<Rightarrow>
          Inr \<lparr>emu_log_table = createTableIfNotExists logFile,
               emu_qrcode_table = createTableIfNotExists qrFile\<rparr>)))))"

text \<open>
  The call \<open>db.Exec(`INSERT OR IGNORE INTO emu_log VALUES (?, ?, ?)`, ...)\<close> of a
  batch: the table after the call and the error the call returns. A storage fault
  leaves the table as it was.
\<close>

definition ExecInsert ::
  "World \<Rightarrow> string \<Rightarrow> LogRecord \<Rightarrow> LogRecord list \<Rightarrow> LogRecord list \<times> error option" where
  "ExecInsert w code r tbl =
     (case fault w (Exec code r) of
        Some err \<Rightarrow> (tbl, Some err)
      | None \<Rightarrow> (insertOrIgnore r tbl, None))"

section \<open>The batch runner\<close>

text \<open>
  What a batch does to the world, in order: \<open>Resolve emuNo qrCode\<close> is the call
  \<open>b.TrainNo(b, qrCode)\<close> for a vehicle, \<open>Statement r\<close> the \<open>INSERT OR IGNORE\<close>
  statement sent for the row \<open>r\<close>. The state of a batch is the database and the effects
  so far. \<open>time.Sleep(requestDelay)\<close> and the log messages below the level of
  \<open>Fatal\<close> change neither and are left out.
\<close>

datatype event = Resolve string string | Statement LogRecord

record State =
  db :: DB
  effects :: "event list"

text \<open>
  The body of the loop of \<open>iterVehicles\<close>, lines 166 to 177, for one row
  \<open>(emuNo, qrCode, id)\<close> of the query (\<open>rowId\<close> below). The result is the state reached and how the
  process stopped there, if it did. The third result of \<open>TrainNo\<close> is assigned to \<open>_\<close>.
\<close>

definition iterVehicle ::
  "Bureau \<Rightarrow> World \<Rightarrow> string \<times> string \<times> int \<Rightarrow> State \<Rightarrow> State \<times> stop option" where
  "iterVehicle b w row s =
     (case row of (emuNo, qrCode, rowId) \<Rightarrow>
      (case checkFatal (fault w (Scan (Code b) emuNo)) of
         Inl x \<Rightarrow> (s, Some x)
       | Inr _ \<Rightarrow>
           (let s1 = s\<lparr>effects := effects s @ [Resolve emuNo qrCode]\<rparr> in
            (case TrainNo b (Info b) (clockDate w qrCode) qrCode of
               Inl x \<Rightarrow> (s1, Some x)
             | Inr (trainNo, date, _) \<Rightarrow>
                 if trainNo \<noteq> '''' then
                   (let r = \<lparr>log_date = date, log_emu_no = emuNo, log_train_no = trainNo\<rparr>;
                        s2 = s1\<lparr>effects := effects s1 @ [Statement r]\<rparr> in
                    (case ExecInsert w (Code b) r (emu_log_table (db s2)) of
                       (tbl, err) \<Rightarrow>
                         (case checkFatal err of
                            Inl x \<Rightarrow> (s2, Some x)
                          | Inr _ \<Rightarrow> (s2\<lparr>db := (db s2)\<lparr>emu_log_table := tbl\<rparr>\<rparr>, None))))
                 else (s1, None)))))"

text \<open>
  The loop \<open>for rows.Next() { ... }\<close>. When \<open>rows.Next()\<close> meets an error it returns
  \<open>false\<close>: the loop ends as it does after the last row, and the source never reads
  \<open>rows.Err()\<close>.
\<close>

fun iterRows ::
  "Bureau \<Rightarrow> World \<Rightarrow> (string \<times> string \<times> int) list \<Rightarrow> State \<Rightarrow> State \<times> stop option" where
  "iterRows b w [] s = (s, None)"
| "iterRows b w (row # rows) s =
     (if fault w (Next (Code b) (fst row)) \<noteq> None then (s, None)
      else (case iterVehicle b w row s of
              (s', Some x) \<Rightarrow> (s', Some x)
            | (s', None) \<Rightarrow> iterRows b w rows s'))"

text \<open>\<open>iterVehicles\<close>, lines 151 to 180.\<close>

definition iterVehicles :: "Bureau \<Rightarrow> World \<Rightarrow> State \<Rightarrow> State \<times> stop option" where
  "iterVehicles b w s =
     (case checkFatal (fault w (Query (Code b))) of
        Inl x \<Rightarrow> (s, Some x)
      | Inr _ \<Rightarrow> iterRows b w (selectVehicles (Code b) (emu_qrcode_table (db s))) s)"

text \<open>The vehicles a run has resolved, in the order of the calls.\<close>

fun resolved :: "event list \<Rightarrow> string list" where
  "resolved [] = []"
| "resolved (Resolve emuNo qrCode # es) = emuNo # resolved es"
| "resolved (Statement r # es) = resolved es"

section \<open>Inputs of the examples\<close>

text \<open>
  The concrete inputs at which the theorems below are instantiated: a world without
  storage faults and one where a single operation fails; a table of scan codes with
  two vehicles of bureau H (one of them with two codes) and one of bureau P; a
  provider H whose adapter fails for one scan code and answers \<open>{trainName: "G101"}\<close>
  for every other.
\<close>

abbreviation quiet :: World where
  "quiet \<equiv> \<lparr>fault = (\<lambda>x. None), clockDate = (\<lambda>q. ''2020-02-01'')\<rparr>"


abbreviation scanCodes :: "QrCode list" where
  "scanCodes \<equiv>
     [\<lparr>rowid = 1, emu_no = ''CRH1-002'', emu_bureau = ''H'', emu_qrcode = ''PQ0002''\<rparr>,
      \<lparr>rowid = 2, emu_no = ''CRH1-001'', emu_bureau = ''H'', emu_qrcode = ''PQ0001''\<rparr>,
      \<lparr>rowid = 3, emu_no = ''CRH1-001'', emu_bureau = ''H'', emu_qrcode = ''PQ0003''\<rparr>,
      \<lparr>rowid = 4, emu_no = ''CRH5-001'', emu_bureau = ''P'', emu_qrcode = ''QR0001''\<rparr>]"

abbreviation seeded :: State where
  "seeded \<equiv> \<lparr>db = \<lparr>emu_log_table = [], emu_qrcode_table = scanCodes\<rparr>, effects = []\<rparr>"

abbreviation providerH :: "string \<Rightarrow> InfoResult" where
  "providerH \<equiv> (\<lambda>q. if q = ''PQ0001'' then (Map.empty, Some (Error ''timeout''))
                     else ([''trainName'' \<mapsto> JString ''G101''], None))"

abbreviation bureauH :: Bureau where
  "bureauH \<equiv> \<lparr>Code = ''H'', TrainNo = TrainNo_H, Info = providerH\<rparr>"

section \<open>Facts about the wall clock\<close>

lemma day_pos: "0 < day"
  by (simp add: day_def Hour_def Second_def)

lemma clock_range: "0 \<le> clock z t \<and> clock z t < day"
  using day_pos by (simp add: clock_def)

lemma clock_dayNo: "t + z * Second = dayNo z t * day + clock z t"
  by (simp add: clock_def dayNo_def)

lemma midnight_shift:
  assumes "0 \<le> d" and "d < day"
  shows "dayNo z (midnight z now + d) = dayNo z now"
    and "clock z (midnight z now + d) = d"
proof -
  have eq: "midnight z now + d + z * Second = dayNo z now * day + d"
    using clock_dayNo [of now z] by (simp add: midnight_def)
  show "dayNo z (midnight z now + d) = dayNo z now"
    unfolding dayNo_def [of z "midnight z now + d"] eq
    using assms day_pos by simp
  show "clock z (midnight z now + d) = d"
    unfolding clock_def [of z "midnight z now + d"] eq
    using assms by simp
qed

lemma startTime_range: "0 \<le> startTime \<and> startTime < day"
  by (simp add: startTime_def day_def Hour_def Second_def)

lemma never_after_end: "\<not> After now (Add (midnight z now) endTime)"
  using clock_range [of z now]
  by (simp add: After_def Add_def midnight_def endTime_def day_def)

lemma hour_pos: "0 < Hour"
  by (simp add: Hour_def Second_def)

lemma truncate_hour:
  "Truncate now Hour \<le> now \<and> now < Truncate now Hour + Hour \<and> Truncate now Hour mod Hour = 0"
proof -
  have "0 \<le> now mod Hour" "now mod Hour < Hour"
    using hour_pos by simp_all
  then show ?thesis
    using hour_pos by (simp add: Truncate_def)
qed

lemma inside_window:
  assumes "startTime \<le> clock z now"
  shows "scheduler z now = Add (Truncate now repeatInterval) repeatInterval"
proof -
  have "\<not> Before now (Add (midnight z now) startTime)"
    using assms by (simp add: Before_def Add_def midnight_def)
  then show ?thesis
    using never_after_end [of now z] by (simp add: scheduler_def nextRun_def)
qed

text \<open>In a zone whose offset is a whole number of hours, as UTC+8 is, the instant that
  \<open>Truncate\<close> yields shows a whole hour on the wall clock too.\<close>

lemma truncate_wall_clock:
  assumes "z mod 3600 = 0"
  shows "clock z (Truncate t Hour) mod Hour = 0"
proof -
  have "Hour dvd z * Second"
    using assms by (auto simp: Hour_def mod_eq_0_iff_dvd)
  moreover have "Hour dvd Truncate t Hour"
    using truncate_hour [of t] by (simp add: mod_eq_0_iff_dvd)
  ultimately have "Hour dvd Truncate t Hour + z * Second"
    by (rule dvd_add [rotated])
  moreover have "Hour dvd day"
    by (simp add: day_def)
  ultimately show ?thesis
    by (simp add: clock_def mod_mod_cancel mod_eq_0_iff_dvd)
qed

section \<open>The next run\<close>

text \<open>
  C8. When the current time is before the start of the window (its wall clock is before
  05:00), the next run is 05:00 of the same local day; a current time of 03:00 is one
  such time.
\<close>

theorem C8_before_start:
  assumes "clock z now < startTime"
  shows "scheduler z now = Add (midnight z now) startTime
       \<and> dayNo z (scheduler z now) = dayNo z now
       \<and> clock z (scheduler z now) = 5 * Hour"
proof -
  have "Before now (Add (midnight z now) startTime)"
    using assms by (simp add: Before_def Add_def midnight_def)
  then have r: "scheduler z now = midnight z now + startTime"
    by (simp add: scheduler_def nextRun_def Add_def)
  show ?thesis
    using r midnight_shift [of startTime z now] startTime_range
    by (simp add: Add_def startTime_def)
qed

theorem C8_before_start_witness:
  "clock 28800 (738000 * day - 5 * Hour) = 3 * Hour
   \<and> clock 28800 (738000 * day - 5 * Hour) < startTime
   \<and> scheduler 28800 (738000 * day - 5 * Hour)
       = Add (midnight 28800 (738000 * day - 5 * Hour)) startTime
   \<and> dayNo 28800 (scheduler 28800 (738000 * day - 5 * Hour)) = dayNo 28800 (738000 * day - 5 * Hour)
   \<and> clock 28800 (scheduler 28800 (738000 * day - 5 * Hour)) = 5 * Hour"
proof -
  have c: "clock 28800 (738000 * day - 5 * Hour) = 3 * Hour"
    by (simp add: clock_def day_def Hour_def Second_def)
  have h: "clock 28800 (738000 * day - 5 * Hour) < startTime"
    unfolding c by (simp add: startTime_def Hour_def Second_def)
  show ?thesis
    using c h C8_before_start [OF h] by blast
qed

text \<open>
  C7. When the current time lies in the window (its wall clock is at or after 05:00 and
  before 24:00), the next run is the current time rounded down to a whole hour, plus
  one hour. \<open>Truncate\<close> rounds the instant down to a multiple of an hour since the zero
  time: the result is at most the current time, less than an hour before it, and a
  whole number of hours.
\<close>

theorem C7_inside_window:
  assumes "startTime \<le> clock z now" and "clock z now < endTime"
  shows "scheduler z now = Add (Truncate now Hour) Hour
       \<and> Truncate now Hour \<le> now \<and> now < Truncate now Hour + Hour
       \<and> Truncate now Hour mod Hour = 0"
  using inside_window [OF assms(1)] truncate_hour [of now] by (simp add: repeatInterval_def)

theorem C7_inside_window_witness:
  "startTime \<le> clock 28800 (738000 * day + 15 * Hour + 1800 * Second)
   \<and> clock 28800 (738000 * day + 15 * Hour + 1800 * Second) < endTime
   \<and> scheduler 28800 (738000 * day + 15 * Hour + 1800 * Second) = 738000 * day + 16 * Hour"
proof -
  let ?n = "738000 * day + 15 * Hour + 1800 * Second"
  have c: "clock 28800 ?n = 23 * Hour + 1800 * Second"
    by (simp add: clock_def day_def Hour_def Second_def)
  have h1: "startTime \<le> clock 28800 ?n"
    unfolding c by (simp add: startTime_def Hour_def Second_def)
  have h2: "clock 28800 ?n < endTime"
    unfolding c by (simp add: endTime_def Hour_def Second_def)
  have t: "Truncate ?n Hour = 738000 * day + 15 * Hour"
    by (simp add: Truncate_def day_def Hour_def Second_def)
  show ?thesis
    using h1 h2 C7_inside_window [OF h1 h2] unfolding t by (simp add: Add_def)
qed




text \<open>
  C3, as the code has it. At 01:00 the current time is before the start of the window of
  its own day, so the next run is 05:00 of the same day.
\<close>

theorem C3_one_oclock:
  assumes "clock z now = Hour"
  shows "scheduler z now = Add (midnight z now) startTime
       \<and> dayNo z (scheduler z now) = dayNo z now
       \<and> clock z (scheduler z now) = 5 * Hour"
proof -
  have "Before now (Add (midnight z now) startTime)"
    using assms hour_pos by (simp add: Before_def Add_def midnight_def startTime_def)
  then have r: "scheduler z now = midnight z now + startTime"
    by (simp add: scheduler_def nextRun_def Add_def)
  show ?thesis
    using r midnight_shift [of startTime z now] startTime_range
    by (simp add: Add_def startTime_def)
qed

text \<open>
  The claim as the specification states it fails: at 01:00 (UTC+8) of day 738000 the next
  run is on day 738000, not on the day after.
\<close>

theorem C3_one_oclock_counterexample:
  "clock 28800 (738000 * day - 7 * Hour) = Hour
   \<and> scheduler 28800 (738000 * day - 7 * Hour) = 738000 * day - 3 * Hour
   \<and> dayNo 28800 (738000 * day - 7 * Hour) = 738000
   \<and> dayNo 28800 (scheduler 28800 (738000 * day - 7 * Hour)) = 738000
   \<and> dayNo 28800 (scheduler 28800 (738000 * day - 7 * Hour))
       \<noteq> dayNo 28800 (738000 * day - 7 * Hour) + 1"
  by (simp add: scheduler_def nextRun_def midnight_def clock_def dayNo_def After_def Before_def
      Add_def endTime_def startTime_def day_def Hour_def Second_def)

theorem C3_one_oclock_witness:
  "clock 28800 (738000 * day - 7 * Hour) = Hour
   \<and> scheduler 28800 (738000 * day - 7 * Hour)
       = Add (midnight 28800 (738000 * day - 7 * Hour)) startTime
   \<and> dayNo 28800 (scheduler 28800 (738000 * day - 7 * Hour)) = dayNo 28800 (738000 * day - 7 * Hour)
   \<and> clock 28800 (scheduler 28800 (738000 * day - 7 * Hour)) = 5 * Hour"
proof -
  have h: "clock 28800 (738000 * day - 7 * Hour) = Hour"
    by (simp add: clock_def day_def Hour_def Second_def)
  show ?thesis
    using h C3_one_oclock [OF h] by blast
qed

section \<open>The resolvers\<close>

text \<open>
  When the adapter returns an error, both resolvers return it with empty results; they
  return an error in no other case, so a returned error comes with an empty \<open>trainNo\<close>.
  When the adapter succeeds and a field the resolver reads is absent or is not a
  string, the type assertion panics.
\<close>

lemma TrainNo_H_error:
  "thisInfo q = (info, Some e) \<Longrightarrow> TrainNo_H thisInfo d q = Inr ('''', '''', Some e)"
  by (simp add: TrainNo_H_def)

lemma TrainNo_P_error:
  "thisInfo q = (info, Some e) \<Longrightarrow> TrainNo_P thisInfo d q = Inr ('''', '''', Some e)"
  by (simp add: TrainNo_P_def)

lemma assertString_panics:
  "(\<forall>s. v \<noteq> Some (JString s)) \<Longrightarrow> \<exists>m. assertString v = Inl (Panic m)"
  by (cases v rule: assertString.cases) auto

lemma TrainNo_H_panics:
  assumes "thisInfo q = (info, None)" and "\<forall>s. info ''trainName'' \<noteq> Some (JString s)"
  shows "\<exists>m. TrainNo_H thisInfo d q = Inl (Panic m)"
  using assms(1) assertString_panics [OF assms(2)] by (auto simp: TrainNo_H_def)

lemma TrainNo_P_panics:
  assumes "thisInfo q = (info, None)"
    and "(\<forall>s. info ''TrainnoId'' \<noteq> Some (JString s)) \<or> (\<forall>s. info ''TrainnoDate'' \<noteq> Some (JString s))"
  shows "\<exists>m. TrainNo_P thisInfo d q = Inl (Panic m)"
proof (cases "\<forall>s. info ''TrainnoId'' \<noteq> Some (JString s)")
  case True
  then show ?thesis
    using assms(1) assertString_panics [of "info ''TrainnoId''"] by (auto simp: TrainNo_P_def)
next
  case False
  then obtain t where t: "info ''TrainnoId'' = Some (JString t)" by auto
  with assms(2) have "\<forall>s. info ''TrainnoDate'' \<noteq> Some (JString s)" by auto
  then show ?thesis
    using assms(1) t assertString_panics [of "info ''TrainnoDate''"] by (auto simp: TrainNo_P_def)
qed

lemma TrainNo_H_error_empty:
  "TrainNo_H thisInfo d q = Inr (t, dt, Some e) \<Longrightarrow> t = ''''"
  by (auto simp: TrainNo_H_def split: prod.splits option.splits sum.splits)

lemma TrainNo_P_error_empty:
  "TrainNo_P thisInfo d q = Inr (t, dt, Some e) \<Longrightarrow> t = ''''"
  by (auto simp: TrainNo_P_def split: prod.splits option.splits sum.splits)

text \<open>
  C1. For a response that lacks a required field or holds a value of another type in
  it, the claim asks \<open>TrainNo\<close> to return an error without panicking. The code panics:
  for bureau H when the adapter returns an empty record without error, and for bureau
  P when \<open>TrainnoId\<close> is a number.
\<close>

theorem C1_missing_field_panics:
  "TrainNo_H (\<lambda>q. (Map.empty, None)) ''2020-02-01'' ''PQ0123456''
     = Inl (Panic ''interface conversion: interface {} is nil, not string'')
   \<and> TrainNo_P (\<lambda>q. ([''TrainnoId'' \<mapsto> JNumber 101, ''TrainnoDate'' \<mapsto> JString ''2020-02-01''], None))
        ''2020-02-01'' ''QR0123456''
     = Inl (Panic ''interface conversion: interface {} is float64, not string'')"
  by (simp add: TrainNo_H_def TrainNo_P_def)

section \<open>The log table\<close>

lemma insertOrIgnore_distinct: "distinct tbl \<Longrightarrow> distinct (insertOrIgnore r tbl)"
  by (simp add: insertOrIgnore_def)

lemma insertOrIgnore_member: "r \<in> set (insertOrIgnore r tbl)"
  by (simp add: insertOrIgnore_def)

lemma insertOrIgnore_again: "insertOrIgnore r (insertOrIgnore r tbl) = insertOrIgnore r tbl"
  by (simp add: insertOrIgnore_def)

lemma count_list_distinct: "distinct xs \<Longrightarrow> x \<in> set xs \<Longrightarrow> count_list xs x = 1"
  by (induction xs) auto

text \<open>
  C4. On a log table that satisfies its \<open>UNIQUE\<close> constraint, and without a storage
  fault, the insert of a triple into the table that an insert of the same triple left
  returns no error and leaves that table as it is; the table then holds exactly one
  row equal to the triple.
\<close>

theorem C4_insert_idempotent:
  assumes "distinct tbl" and "fault w (Exec code r) = None"
  shows "ExecInsert w code r (fst (ExecInsert w code r tbl)) = (insertOrIgnore r tbl, None)
       \<and> count_list (fst (ExecInsert w code r (fst (ExecInsert w code r tbl)))) r = 1
       \<and> fst (ExecInsert w code r (fst (ExecInsert w code r tbl))) = fst (ExecInsert w code r tbl)"
  using assms count_list_distinct [OF insertOrIgnore_distinct [OF assms(1)] insertOrIgnore_member, of r]
  by (simp add: ExecInsert_def insertOrIgnore_again)

theorem C4_insert_idempotent_witness:
  "distinct ([] :: LogRecord list)
   \<and> fault quiet
         (Exec ''H'' \<lparr>log_date = ''2020-02-01'', log_emu_no = ''CRH1-001'', log_train_no = ''G101''\<rparr>) = None
   \<and> ExecInsert quiet ''H''
         \<lparr>log_date = ''2020-02-01'', log_emu_no = ''CRH1-001'', log_train_no = ''G101''\<rparr>
         (fst (ExecInsert quiet ''H''
            \<lparr>log_date = ''2020-02-01'', log_emu_no = ''CRH1-001'', log_train_no = ''G101''\<rparr> []))
       = ([\<lparr>log_date = ''2020-02-01'', log_emu_no = ''CRH1-001'', log_train_no = ''G101''\<rparr>], None)
   \<and> count_list
         (fst (ExecInsert quiet ''H''
            \<lparr>log_date = ''2020-02-01'', log_emu_no = ''CRH1-001'', log_train_no = ''G101''\<rparr>
            (fst (ExecInsert quiet ''H''
               \<lparr>log_date = ''2020-02-01'', log_emu_no = ''CRH1-001'', log_train_no = ''G101''\<rparr> []))))
         \<lparr>log_date = ''2020-02-01'', log_emu_no = ''CRH1-001'', log_train_no = ''G101''\<rparr> = 1"
proof -
  let ?r = "\<lparr>log_date = ''2020-02-01'', log_emu_no = ''CRH1-001'', log_train_no = ''G101''\<rparr>"
  have h1: "distinct ([] :: LogRecord list)" by simp
  have h2: "fault quiet (Exec ''H'' ?r) = None" by simp
  have e: "insertOrIgnore ?r [] = [?r]" by (simp add: insertOrIgnore_def)
  note c = C4_insert_idempotent [OF h1 h2]
  have c1: "ExecInsert quiet ''H'' ?r (fst (ExecInsert quiet ''H'' ?r [])) = (insertOrIgnore ?r [], None)"
    using c by blast
  have c2: "count_list (fst (ExecInsert quiet ''H'' ?r (fst (ExecInsert quiet ''H'' ?r [])))) ?r = 1"
    using c by blast
  show ?thesis using h1 h2 c1 c2 unfolding e by blast
qed

section \<open>One vehicle of a batch\<close>

text \<open>What the loop body does once the row is scanned and \<open>TrainNo\<close> has returned.\<close>

lemma iterVehicle_returned:
  assumes "TrainNo b (Info b) (clockDate w qrCode) qrCode = Inr (trainNo, date, err)"
    and "fault w (Scan (Code b) emuNo) = None"
  shows "iterVehicle b w (emuNo, qrCode, rowId) s =
     (if trainNo \<noteq> '''' then
        (case fault w (Exec (Code b) \<lparr>log_date = date, log_emu_no = emuNo, log_train_no = trainNo\<rparr>) of
           Some (Error m) \<Rightarrow>
             (s\<lparr>effects := effects s @ [Resolve emuNo qrCode,
                  Statement \<lparr>log_date = date, log_emu_no = emuNo, log_train_no = trainNo\<rparr>]\<rparr>,
              Some (Exit 1 m))
         | None \<Rightarrow>
             (s\<lparr>db := (db s)\<lparr>emu_log_table :=
                   insertOrIgnore \<lparr>log_date = date, log_emu_no = emuNo, log_train_no = trainNo\<rparr>
                     (emu_log_table (db s))\<rparr>,
                 effects := effects s @ [Resolve emuNo qrCode,
                  Statement \<lparr>log_date = date, log_emu_no = emuNo, log_train_no = trainNo\<rparr>]\<rparr>,
              None))
      else (s\<lparr>effects := effects s @ [Resolve emuNo qrCode]\<rparr>, None))"
  using assms
  by (simp add: iterVehicle_def checkFatal_def ExecInsert_def Let_def split: option.splits error.splits)

text \<open>
  C10. Once \<open>TrainNo\<close> has returned \<open>(trainNo, date, err)\<close>, the batch runner sends the
  insert for the vehicle if and only if \<open>trainNo\<close> is not the empty string; \<open>err\<close> plays
  no part. So a resolution without error and with an empty \<open>trainNo\<close> is skipped, and a
  resolution with an error is skipped only when its \<open>trainNo\<close> is empty.
\<close>

theorem C10_insert_iff_nonempty:
  assumes "TrainNo b (Info b) (clockDate w qrCode) qrCode = Inr (trainNo, date, err)"
    and "fault w (Scan (Code b) emuNo) = None"
    and "fault w (Exec (Code b) \<lparr>log_date = date, log_emu_no = emuNo, log_train_no = trainNo\<rparr>) = None"
  shows "iterVehicle b w (emuNo, qrCode, rowId) s =
     (if trainNo \<noteq> '''' then
        s\<lparr>db := (db s)\<lparr>emu_log_table :=
              insertOrIgnore \<lparr>log_date = date, log_emu_no = emuNo, log_train_no = trainNo\<rparr>
                (emu_log_table (db s))\<rparr>,
          effects := effects s @ [Resolve emuNo qrCode,
              Statement \<lparr>log_date = date, log_emu_no = emuNo, log_train_no = trainNo\<rparr>]\<rparr>
      else s\<lparr>effects := effects s @ [Resolve emuNo qrCode]\<rparr>, None)"
  using iterVehicle_returned [OF assms(1,2), of rowId s] assms(3) by simp

theorem C10_insert_iff_nonempty_witness:
  "TrainNo \<lparr>Code = ''H'', TrainNo = (\<lambda>i d q. Inr (''G101'', d, Some (Error ''late''))), Info = providerH\<rparr>
      (Info \<lparr>Code = ''H'', TrainNo = (\<lambda>i d q. Inr (''G101'', d, Some (Error ''late''))), Info = providerH\<rparr>)
      (clockDate quiet ''PQ0001'') ''PQ0001''
     = Inr (''G101'', ''2020-02-01'', Some (Error ''late''))
   \<and> fault quiet (Scan ''H'' ''CRH1-001'') = None
   \<and> fault quiet (Exec ''H''
         \<lparr>log_date = ''2020-02-01'', log_emu_no = ''CRH1-001'', log_train_no = ''G101''\<rparr>) = None
   \<and> iterVehicle \<lparr>Code = ''H'', TrainNo = (\<lambda>i d q. Inr (''G101'', d, Some (Error ''late''))), Info = providerH\<rparr>
        quiet (''CRH1-001'', ''PQ0001'', 2) seeded
     = (\<lparr>db = \<lparr>emu_log_table =
                  [\<lparr>log_date = ''2020-02-01'', log_emu_no = ''CRH1-001'', log_train_no = ''G101''\<rparr>],
                emu_qrcode_table = scanCodes\<rparr>,
          effects = [Resolve ''CRH1-001'' ''PQ0001'',
            Statement \<lparr>log_date = ''2020-02-01'', log_emu_no = ''CRH1-001'', log_train_no = ''G101''\<rparr>]\<rparr>,
        None)"
proof -
  let ?b = "\<lparr>Code = ''H'', TrainNo = (\<lambda>i d q. Inr (''G101'', d, Some (Error ''late''))), Info = providerH\<rparr>"
  let ?r = "\<lparr>log_date = ''2020-02-01'', log_emu_no = ''CRH1-001'', log_train_no = ''G101''\<rparr>"
  have h1: "TrainNo ?b (Info ?b) (clockDate quiet ''PQ0001'') ''PQ0001''
      = Inr (''G101'', ''2020-02-01'', Some (Error ''late''))"
    by simp
  have h2: "fault quiet (Scan (Code ?b) ''CRH1-001'') = None"
    by simp
  have h3: "fault quiet (Exec (Code ?b) ?r) = None"
    by simp
  have "iterVehicle ?b quiet (''CRH1-001'', ''PQ0001'', 2) seeded =
      (\<lparr>db = \<lparr>emu_log_table = [?r], emu_qrcode_table = scanCodes\<rparr>,
        effects = [Resolve ''CRH1-001'' ''PQ0001'', Statement ?r]\<rparr>, None)"
    using C10_insert_iff_nonempty [OF h1 h2 h3, of 2 seeded]
    by (simp add: insertOrIgnore_def)
  then show ?thesis using h1 h2 h3 by simp
qed

text \<open>
  C9. When \<open>TrainNo\<close> of bureau H or P returns an error for a vehicle, the log table
  stays as it is, no insert is sent for the vehicle, and the loop goes on with the
  remaining rows of the batch.
\<close>

theorem C9_resolution_error_skipped:
  assumes "b \<in> set (bureaus infoH infoP)"
    and "TrainNo b (Info b) (clockDate w qrCode) qrCode = Inr (trainNo, date, Some e)"
    and "fault w (Next (Code b) emuNo) = None"
    and "fault w (Scan (Code b) emuNo) = None"
  shows "iterVehicle b w (emuNo, qrCode, rowId) s
           = (s\<lparr>effects := effects s @ [Resolve emuNo qrCode]\<rparr>, None)
       \<and> iterRows b w ((emuNo, qrCode, rowId) # rows) s
           = iterRows b w rows (s\<lparr>effects := effects s @ [Resolve emuNo qrCode]\<rparr>)"
proof -
  have "trainNo = ''''"
    using assms(1,2) TrainNo_H_error_empty TrainNo_P_error_empty
    by (auto simp: bureaus_def)
  then have v: "iterVehicle b w (emuNo, qrCode, rowId) s
           = (s\<lparr>effects := effects s @ [Resolve emuNo qrCode]\<rparr>, None)"
    using iterVehicle_returned [OF assms(2,4), of rowId s] by simp
  then show ?thesis using assms(3) by simp
qed

theorem C9_resolution_error_skipped_witness:
  "bureauH \<in> set (bureaus providerH providerH)
   \<and> TrainNo bureauH (Info bureauH) (clockDate quiet ''PQ0001'') ''PQ0001''
       = Inr ('''', '''', Some (Error ''timeout''))
   \<and> fault quiet (Next ''H'' ''CRH1-001'') = None
   \<and> fault quiet (Scan ''H'' ''CRH1-001'') = None
   \<and> iterVehicle bureauH quiet (''CRH1-001'', ''PQ0001'', 2) seeded
       = (seeded\<lparr>effects := [Resolve ''CRH1-001'' ''PQ0001'']\<rparr>, None)
   \<and> iterRows bureauH quiet [(''CRH1-001'', ''PQ0001'', 2), (''CRH1-002'', ''PQ0002'', 1)] seeded
       = iterRows bureauH quiet [(''CRH1-002'', ''PQ0002'', 1)]
           (seeded\<lparr>effects := [Resolve ''CRH1-001'' ''PQ0001'']\<rparr>)"
proof -
  have h1: "bureauH \<in> set (bureaus providerH providerH)"
    by (simp add: bureaus_def)
  have h2: "TrainNo bureauH (Info bureauH) (clockDate quiet ''PQ0001'') ''PQ0001''
       = Inr ('''', '''', Some (Error ''timeout''))"
    by (simp add: TrainNo_H_def)
  have h3: "fault quiet (Next (Code bureauH) ''CRH1-001'') = None"
    by simp
  have h4: "fault quiet (Scan (Code bureauH) ''CRH1-001'') = None"
    by simp
  from C9_resolution_error_skipped [OF h1 h2 h3 h4, of 2 seeded "[(''CRH1-002'', ''PQ0002'', 1)]"]
  show ?thesis using h1 h2 by simp
qed

text \<open>Every storage operation of \<open>checkDatabase\<close> is followed by \<open>checkFatal\<close>.\<close>

lemma checkDatabase_fatal:
  assumes "fault w x = Some (Error m)"
    and "x \<in> {Open, CreateTable ''emu_log'', CountRecords ''emu_log'',
               CreateTable ''emu_qrcode'', CountRecords ''emu_qrcode''}"
  shows "\<exists>m'. checkDatabase w logFile qrFile = Inl (Exit 1 m')"
  using assms
  by (auto simp: checkDatabase_def countRecords_def checkFatal_def
      split: option.splits error.splits sum.splits)

lemma checkDatabase_ok:
  assumes "\<forall>x. fault w x = None"
  shows "checkDatabase w logFile qrFile =
     Inr \<lparr>emu_log_table = createTableIfNotExists logFile,
          emu_qrcode_table = createTableIfNotExists qrFile\<rparr>"
  using assms by (simp add: checkDatabase_def countRecords_def checkFatal_def)



section \<open>The selection of a batch\<close>

lemma minRow_least:
  "minRow r xs \<in> set (r # xs) \<and> (\<forall>x \<in> set (r # xs). rowid (minRow r xs) \<le> rowid x)"
proof (induction xs arbitrary: r)
  case Nil
  show ?case by simp
next
  case (Cons x xs)
  from Cons.IH [of "if rowid x < rowid r then x else r"]
  show ?case by (auto split: if_splits)
qed

lemma concat_singletons:
  "(\<forall>x \<in> set xs. f x = [g x]) \<Longrightarrow> concat (map f xs) = map g xs"
  by (induction xs) auto

lemma member_Cons: "x \<in> set xs \<Longrightarrow> \<exists>y ys. xs = y # ys"
  by (cases xs) auto

lemma selectVehicles_shape:
  obtains p where
    "selectVehicles code tbl =
       map (\<lambda>e. (e, emu_qrcode (p e), rowid (p e)))
         (sort (remdups (map emu_no (filter (\<lambda>r. emu_bureau r = code) tbl))))"
    and "\<forall>r \<in> set tbl. emu_bureau r = code \<longrightarrow>
           p (emu_no r) \<in> set tbl \<and> emu_bureau (p (emu_no r)) = code
           \<and> emu_no (p (emu_no r)) = emu_no r \<and> rowid (p (emu_no r)) \<le> rowid r"
proof -
  let ?rows = "filter (\<lambda>r. emu_bureau r = code) tbl"
  let ?keys = "sort (remdups (map emu_no ?rows))"
  define p where "p = (\<lambda>e. case filter (\<lambda>r. emu_no r = e) ?rows of r # rs \<Rightarrow> minRow r rs)"
  have group: "\<exists>y ys. filter (\<lambda>x. emu_no x = emu_no r) ?rows = y # ys"
    if "r \<in> set tbl" "emu_bureau r = code" for r
  proof -
    have "r \<in> set (filter (\<lambda>x. emu_no x = emu_no r) ?rows)" using that by simp
    then show ?thesis by (rule member_Cons)
  qed
  have "\<forall>e \<in> set ?keys.
      (case filter (\<lambda>r. emu_no r = e) ?rows of
         [] \<Rightarrow> []
       | r # rs \<Rightarrow> [(e, emu_qrcode (minRow r rs), rowid (minRow r rs))])
      = [(e, emu_qrcode (p e), rowid (p e))]"
  proof
    fix e assume "e \<in> set ?keys"
    then obtain r where "r \<in> set tbl" "emu_bureau r = code" "emu_no r = e" by auto
    with group [of r] obtain y ys where "filter (\<lambda>x. emu_no x = e) ?rows = y # ys" by auto
    then show "(case filter (\<lambda>r. emu_no r = e) ?rows of
         [] \<Rightarrow> []
       | r # rs \<Rightarrow> [(e, emu_qrcode (minRow r rs), rowid (minRow r rs))])
      = [(e, emu_qrcode (p e), rowid (p e))]"
      by (simp add: p_def)
  qed
  then have shape: "selectVehicles code tbl = map (\<lambda>e. (e, emu_qrcode (p e), rowid (p e))) ?keys"
    unfolding selectVehicles_def Let_def by (rule concat_singletons)
  have least: "p (emu_no r) \<in> set tbl \<and> emu_bureau (p (emu_no r)) = code
           \<and> emu_no (p (emu_no r)) = emu_no r \<and> rowid (p (emu_no r)) \<le> rowid r"
    if r: "r \<in> set tbl" "emu_bureau r = code" for r
  proof -
    let ?g = "filter (\<lambda>x. emu_no x = emu_no r) ?rows"
    from group [OF r] obtain y ys where g: "?g = y # ys" by auto
    then have pe: "p (emu_no r) = minRow y ys" by (simp add: p_def)
    have rg: "r \<in> set ?g" using r by simp
    have "minRow y ys \<in> set ?g" and "rowid (minRow y ys) \<le> rowid r"
      using minRow_least [of y ys] rg unfolding g by auto
    then show ?thesis unfolding pe by auto
  qed
  show ?thesis
  proof (rule that [of p])
    show "selectVehicles code tbl = map (\<lambda>e. (e, emu_qrcode (p e), rowid (p e))) ?keys"
      by (rule shape)
    show "\<forall>r \<in> set tbl. emu_bureau r = code \<longrightarrow>
           p (emu_no r) \<in> set tbl \<and> emu_bureau (p (emu_no r)) = code
           \<and> emu_no (p (emu_no r)) = emu_no r \<and> rowid (p (emu_no r)) \<le> rowid r"
      using least by blast
  qed
qed

lemma selectVehicles_keys:
  "map fst (selectVehicles code tbl)
     = sort (remdups (map emu_no (filter (\<lambda>r. emu_bureau r = code) tbl)))"
proof -
  obtain p where shape: "selectVehicles code tbl =
       map (\<lambda>e. (e, emu_qrcode (p e), rowid (p e)))
         (sort (remdups (map emu_no (filter (\<lambda>r. emu_bureau r = code) tbl))))"
    and "\<forall>r \<in> set tbl. emu_bureau r = code \<longrightarrow>
           p (emu_no r) \<in> set tbl \<and> emu_bureau (p (emu_no r)) = code
           \<and> emu_no (p (emu_no r)) = emu_no r \<and> rowid (p (emu_no r)) \<le> rowid r"
    by (rule selectVehicles_shape [of code tbl])
  show ?thesis unfolding shape by (simp add: comp_def)
qed

lemma selectVehicles_ascending: "sorted_wrt (<) (map fst (selectVehicles code tbl))"
  by (simp add: selectVehicles_keys strict_sorted_iff)

lemma selectVehicles_vehicles:
  "set (map fst (selectVehicles code tbl)) = emu_no ` {r \<in> set tbl. emu_bureau r = code}"
  by (auto simp: selectVehicles_keys)

lemma selectVehicles_earliest:
  assumes "(e, q, i) \<in> set (selectVehicles code tbl)"
  shows "\<exists>r \<in> set tbl. emu_bureau r = code \<and> emu_no r = e \<and> emu_qrcode r = q \<and> rowid r = i
           \<and> (\<forall>x \<in> set tbl. emu_bureau x = code \<and> emu_no x = e \<longrightarrow> i \<le> rowid x)"
proof -
  obtain p where shape: "selectVehicles code tbl =
       map (\<lambda>e. (e, emu_qrcode (p e), rowid (p e)))
         (sort (remdups (map emu_no (filter (\<lambda>r. emu_bureau r = code) tbl))))"
    and least: "\<forall>r \<in> set tbl. emu_bureau r = code \<longrightarrow>
           p (emu_no r) \<in> set tbl \<and> emu_bureau (p (emu_no r)) = code
           \<and> emu_no (p (emu_no r)) = emu_no r \<and> rowid (p (emu_no r)) \<le> rowid r"
    by (rule selectVehicles_shape [of code tbl])
  from assms have q: "q = emu_qrcode (p e)" and i: "i = rowid (p e)"
    and "e \<in> emu_no ` {r \<in> set tbl. emu_bureau r = code}"
    by (auto simp: shape)
  then obtain r0 where r0: "r0 \<in> set tbl" "emu_bureau r0 = code" "emu_no r0 = e" by auto
  have a: "p e \<in> set tbl \<and> emu_bureau (p e) = code \<and> emu_no (p e) = e"
    using least r0 by blast
  have "\<forall>x \<in> set tbl. emu_bureau x = code \<and> emu_no x = e \<longrightarrow> i \<le> rowid x"
    using least i by blast
  with a q i show ?thesis by blast
qed

lemma resolved_append: "resolved (xs @ ys) = resolved xs @ resolved ys"
  by (induction xs rule: resolved.induct) simp_all

lemma iterVehicle_resolved:
  "resolved (effects (fst (iterVehicle b w row s))) = resolved (effects s) @ [fst row]
   \<or> (resolved (effects (fst (iterVehicle b w row s))) = resolved (effects s)
        \<and> snd (iterVehicle b w row s) \<noteq> None)"
  by (cases row)
    (auto simp: iterVehicle_def checkFatal_def ExecInsert_def Let_def resolved_append
      split: option.splits error.splits sum.splits prod.splits)

lemma iterVehicle_resolved_continue:
  "snd (iterVehicle b w row s) = None
     \<Longrightarrow> resolved (effects (fst (iterVehicle b w row s))) = resolved (effects s) @ [fst row]"
  using iterVehicle_resolved [of b w row s] by auto

lemma iterRows_resolved_prefix:
  "\<exists>k. resolved (effects (fst (iterRows b w rows s)))
         = resolved (effects s) @ take k (map fst rows)"
proof (induction rows arbitrary: s)
  case Nil
  show ?case by simp
next
  case (Cons row rows)
  show ?case
  proof (cases "fault w (Next (Code b) (fst row)) \<noteq> None")
    case True
    then have "resolved (effects (fst (iterRows b w (row # rows) s)))
        = resolved (effects s) @ take 0 (map fst (row # rows))" by simp
    then show ?thesis by blast
  next
    case False
    obtain s' st where v: "iterVehicle b w row s = (s', st)" by (cases "iterVehicle b w row s")
    show ?thesis
    proof (cases st)
      case None
      then have r: "resolved (effects s') = resolved (effects s) @ [fst row]"
        using iterVehicle_resolved_continue [of b w row s] v by simp
      from Cons.IH [of s'] obtain k where
        "resolved (effects (fst (iterRows b w rows s'))) = resolved (effects s') @ take k (map fst rows)"
        by blast
      then have "resolved (effects (fst (iterRows b w (row # rows) s)))
          = resolved (effects s) @ take (Suc k) (map fst (row # rows))"
        using False v None r by simp
      then show ?thesis by blast
    next
      case (Some x)
      from iterVehicle_resolved [of b w row s] v
      have "resolved (effects s') = resolved (effects s) @ take 1 (map fst (row # rows))
          \<or> resolved (effects s') = resolved (effects s) @ take 0 (map fst (row # rows))"
        by auto
      moreover have "fst (iterRows b w (row # rows) s) = s'"
        using False v Some by simp
      ultimately show ?thesis by metis
    qed
  qed
qed

lemma iterRows_resolved_all:
  assumes "\<forall>e. fault w (Next (Code b) e) = None"
    and "snd (iterRows b w rows s) = None"
  shows "resolved (effects (fst (iterRows b w rows s))) = resolved (effects s) @ map fst rows"
  using assms(2)
proof (induction rows arbitrary: s)
  case Nil
  show ?case by simp
next
  case (Cons row rows)
  obtain s' st where v: "iterVehicle b w row s = (s', st)" by (cases "iterVehicle b w row s")
  have n: "fault w (Next (Code b) (fst row)) = None" using assms(1) by simp
  show ?case
  proof (cases st)
    case None
    then have r: "resolved (effects s') = resolved (effects s) @ [fst row]"
      using iterVehicle_resolved_continue [of b w row s] v by simp
    have "snd (iterRows b w rows s') = None"
      using Cons.prems n v None by simp
    from Cons.IH [OF this] show ?thesis
      using n v None r by simp
  next
    case (Some x)
    then have "snd (iterRows b w (row # rows) s) = Some x"
      using n v by simp
    with Cons.prems show ?thesis by simp
  qed
qed

lemma rowid_unique:
  assumes "distinct (map rowid tbl)" and "r \<in> set tbl" and "x \<in> set tbl" and "rowid x = rowid r"
  shows "x = r"
  using assms by (auto simp: distinct_map dest: inj_onD)

lemma selectVehicles_strictly_earliest:
  assumes "distinct (map rowid tbl)" and "(e, q, i) \<in> set (selectVehicles code tbl)"
  shows "\<exists>r \<in> set tbl. emu_bureau r = code \<and> emu_no r = e \<and> emu_qrcode r = q \<and> rowid r = i
           \<and> (\<forall>x \<in> set tbl. emu_bureau x = code \<and> emu_no x = e \<and> x \<noteq> r \<longrightarrow> i < rowid x)"
proof -
  from selectVehicles_earliest [OF assms(2)] obtain r where r: "r \<in> set tbl" "emu_bureau r = code"
    "emu_no r = e" "emu_qrcode r = q" "rowid r = i"
    and least: "\<forall>x \<in> set tbl. emu_bureau x = code \<and> emu_no x = e \<longrightarrow> i \<le> rowid x"
    by blast
  have "\<forall>x \<in> set tbl. emu_bureau x = code \<and> emu_no x = e \<and> x \<noteq> r \<longrightarrow> i < rowid x"
  proof (intro ballI impI)
    fix x assume x: "x \<in> set tbl" and c: "emu_bureau x = code \<and> emu_no x = e \<and> x \<noteq> r"
    then have "i \<le> rowid x" using least by blast
    moreover have "rowid x \<noteq> i"
      using rowid_unique [OF assms(1) r(1) x] c r(5) by auto
    ultimately show "i < rowid x" by simp
  qed
  with r show ?thesis by blast
qed

lemma iterVehicles_resolved_prefix:
  assumes "effects s = []"
  shows "\<exists>k. resolved (effects (fst (iterVehicles b w s)))
           = take k (map fst (selectVehicles (Code b) (emu_qrcode_table (db s))))"
proof (cases "fault w (Query (Code b))")
  case None
  then have "iterVehicles b w s = iterRows b w (selectVehicles (Code b) (emu_qrcode_table (db s))) s"
    by (simp add: iterVehicles_def checkFatal_def)
  then show ?thesis
    using iterRows_resolved_prefix [of b w "selectVehicles (Code b) (emu_qrcode_table (db s))" s] assms
    by simp
next
  case (Some err)
  then have "fst (iterVehicles b w s) = s"
    by (cases err) (simp add: iterVehicles_def checkFatal_def)
  then have "resolved (effects (fst (iterVehicles b w s)))
      = take 0 (map fst (selectVehicles (Code b) (emu_qrcode_table (db s))))"
    using assms by simp
  then show ?thesis by blast
qed

lemma iterVehicles_resolved_all:
  assumes "effects s = []" and "\<forall>e. fault w (Next (Code b) e) = None"
    and "snd (iterVehicles b w s) = None"
  shows "resolved (effects (fst (iterVehicles b w s)))
           = map fst (selectVehicles (Code b) (emu_qrcode_table (db s)))"
proof (cases "fault w (Query (Code b))")
  case None
  then have e: "iterVehicles b w s = iterRows b w (selectVehicles (Code b) (emu_qrcode_table (db s))) s"
    by (simp add: iterVehicles_def checkFatal_def)
  show ?thesis
    using iterRows_resolved_all [OF assms(2), of "selectVehicles (Code b) (emu_qrcode_table (db s))" s]
      assms(1,3) unfolding e by simp
next
  case (Some err)
  then have "snd (iterVehicles b w s) \<noteq> None"
    by (cases err) (simp add: iterVehicles_def checkFatal_def)
  with assms(3) show ?thesis by simp
qed

text \<open>
  C5. For every content of the scan-code table (with its row ids distinct) and every
  bureau, the query returns the vehicles of the bureau in strictly ascending order of
  \<open>emu_no\<close>, each once, with the scan code and row id of the row of that vehicle whose
  row id is the least. The batch resolves the vehicles in that order: the vehicles that
  a run has resolved are an initial part of the selection, and all of it when the run
  ends without a stop and no \<open>rows.Next()\<close> fails.
\<close>

theorem C5_selection_and_order:
  assumes "distinct (map rowid (emu_qrcode_table (db s)))" and "effects s = []"
  shows "sorted_wrt (<) (map fst (selectVehicles (Code b) (emu_qrcode_table (db s))))
       \<and> set (map fst (selectVehicles (Code b) (emu_qrcode_table (db s))))
           = emu_no ` {r \<in> set (emu_qrcode_table (db s)). emu_bureau r = Code b}
       \<and> (\<forall>(e, q, i) \<in> set (selectVehicles (Code b) (emu_qrcode_table (db s))).
             \<exists>r \<in> set (emu_qrcode_table (db s)).
                emu_bureau r = Code b \<and> emu_no r = e \<and> emu_qrcode r = q \<and> rowid r = i
                \<and> (\<forall>x \<in> set (emu_qrcode_table (db s)).
                      emu_bureau x = Code b \<and> emu_no x = e \<and> x \<noteq> r \<longrightarrow> i < rowid x))
       \<and> (\<exists>k. resolved (effects (fst (iterVehicles b w s)))
               = take k (map fst (selectVehicles (Code b) (emu_qrcode_table (db s)))))
       \<and> ((\<forall>e. fault w (Next (Code b) e) = None) \<and> snd (iterVehicles b w s) = None
            \<longrightarrow> resolved (effects (fst (iterVehicles b w s)))
                 = map fst (selectVehicles (Code b) (emu_qrcode_table (db s))))"
proof (intro conjI)
  show "sorted_wrt (<) (map fst (selectVehicles (Code b) (emu_qrcode_table (db s))))"
    by (rule selectVehicles_ascending)
  show "set (map fst (selectVehicles (Code b) (emu_qrcode_table (db s))))
           = emu_no ` {r \<in> set (emu_qrcode_table (db s)). emu_bureau r = Code b}"
    by (rule selectVehicles_vehicles)
  show "\<forall>(e, q, i) \<in> set (selectVehicles (Code b) (emu_qrcode_table (db s))).
             \<exists>r \<in> set (emu_qrcode_table (db s)).
                emu_bureau r = Code b \<and> emu_no r = e \<and> emu_qrcode r = q \<and> rowid r = i
                \<and> (\<forall>x \<in> set (emu_qrcode_table (db s)).
                      emu_bureau x = Code b \<and> emu_no x = e \<and> x \<noteq> r \<longrightarrow> i < rowid x)"
    using selectVehicles_strictly_earliest [OF assms(1)] by fast
  show "\<exists>k. resolved (effects (fst (iterVehicles b w s)))
               = take k (map fst (selectVehicles (Code b) (emu_qrcode_table (db s))))"
    by (rule iterVehicles_resolved_prefix [OF assms(2)])
  show "(\<forall>e. fault w (Next (Code b) e) = None) \<and> snd (iterVehicles b w s) = None
            \<longrightarrow> resolved (effects (fst (iterVehicles b w s)))
                 = map fst (selectVehicles (Code b) (emu_qrcode_table (db s)))"
    using iterVehicles_resolved_all [OF assms(2)] by blast
qed

text \<open>The selection and the run of bureau H on the example table.\<close>

lemma select_H:
  "selectVehicles ''H'' scanCodes = [(''CRH1-001'', ''PQ0001'', 2), (''CRH1-002'', ''PQ0002'', 1)]"
  by (simp add: selectVehicles_def less_eq_char_def less_char_def)

lemma run_H:
  "iterVehicles bureauH quiet seeded =
   (\<lparr>db = \<lparr>emu_log_table =
              [\<lparr>log_date = ''2020-02-01'', log_emu_no = ''CRH1-002'', log_train_no = ''G101''\<rparr>],
           emu_qrcode_table = scanCodes\<rparr>,
     effects = [Resolve ''CRH1-001'' ''PQ0001'', Resolve ''CRH1-002'' ''PQ0002'',
        Statement \<lparr>log_date = ''2020-02-01'', log_emu_no = ''CRH1-002'', log_train_no = ''G101''\<rparr>]\<rparr>,
    None)"
  by (simp add: iterVehicles_def select_H checkFatal_def iterVehicle_def TrainNo_H_def ExecInsert_def
      insertOrIgnore_def Let_def)

theorem C5_selection_and_order_witness:
  "distinct (map rowid (emu_qrcode_table (db seeded)))
   \<and> effects seeded = []
   \<and> (\<forall>e. fault quiet (Next (Code bureauH) e) = None)
   \<and> snd (iterVehicles bureauH quiet seeded) = None
   \<and> selectVehicles (Code bureauH) (emu_qrcode_table (db seeded))
       = [(''CRH1-001'', ''PQ0001'', 2), (''CRH1-002'', ''PQ0002'', 1)]
   \<and> sorted_wrt (<) (map fst (selectVehicles (Code bureauH) (emu_qrcode_table (db seeded))))
   \<and> resolved (effects (fst (iterVehicles bureauH quiet seeded)))
       = map fst (selectVehicles (Code bureauH) (emu_qrcode_table (db seeded)))
   \<and> resolved (effects (fst (iterVehicles bureauH quiet seeded))) = [''CRH1-001'', ''CRH1-002'']"
proof -
  have h1: "distinct (map rowid (emu_qrcode_table (db seeded)))" by simp
  have h2: "effects seeded = []" by simp
  have h3: "\<forall>e. fault quiet (Next (Code bureauH) e) = None" by simp
  have h4: "snd (iterVehicles bureauH quiet seeded) = None" by (simp add: run_H)
  have sel: "selectVehicles (Code bureauH) (emu_qrcode_table (db seeded))
       = [(''CRH1-001'', ''PQ0001'', 2), (''CRH1-002'', ''PQ0002'', 1)]"
    by (simp add: select_H)
  note c = C5_selection_and_order [OF h1 h2, of bureauH quiet]
  have c1: "sorted_wrt (<) (map fst (selectVehicles (Code bureauH) (emu_qrcode_table (db seeded))))"
    using c by blast
  have c5: "resolved (effects (fst (iterVehicles bureauH quiet seeded)))
       = map fst (selectVehicles (Code bureauH) (emu_qrcode_table (db seeded)))"
    using c h3 h4 by blast
  have c6: "resolved (effects (fst (iterVehicles bureauH quiet seeded))) = [''CRH1-001'', ''CRH1-002'']"
    unfolding c5 sel by simp
  show ?thesis
    using h1 h2 h3 h4 sel c1 c5 c6 by blast
qed

end
